theory Spec2Isabelle
  imports Complex_Main "HOL-Library.Log_Nat"
begin

text \<open>
  The dashboard has three views with behaviour of their own: a form that scores one
  student with a fixed heuristic, a bulk upload view that selects a file and offers a CSV
  template, and an analytics view that shows fixed figures. Each view is modelled as a
  record of its state variables together with what it has emitted (notifications, timers,
  downloads); each handler is a function from state to state.
\<close>

section \<open>Numbers of the language\<close>

text \<open>
  A TypeScript \<open>number\<close> is an IEEE 754 binary64 value: not-a-number, one of the two
  infinities, or a finite dyadic rational. Finite values are kept as exact rationals and
  every arithmetic operation rounds its exact result to the nearest binary64 value, ties
  to even, as the language prescribes. The two zeros are identified: nothing the views
  below compute depends on the sign of a zero (they divide by the literals 4 and 100 only,
  and a zero divisor counts as positive zero here).
\<close>

datatype jsnum = NaN | NInf | Num rat | PInf

definition pow2 :: "int \<Rightarrow> rat" where
  "pow2 e = (if 0 \<le> e then 2 ^ nat e else 1 / 2 ^ nat (- e))"

definition ilog2 :: "rat \<Rightarrow> int" where
  \<comment> \<open>for \<open>x > 0\<close>, the exponent \<open>e\<close> with \<open>2\<^sup>e \<le> x < 2\<^sup>e\<^sup>+\<^sup>1\<close>\<close>
  "ilog2 x = (if 1 \<le> x then bitlen \<lfloor>x\<rfloor> - 1 else - bitlen (\<lceil>1 / x\<rceil> - 1))"

definition round_half_even :: "rat \<Rightarrow> int" where
  "round_half_even x =
     (let f = \<lfloor>x\<rfloor>; d = x - of_int f
      in if d < 1 / 2 then f else if 1 / 2 < d then f + 1 else if even f then f else f + 1)"

definition expo :: "rat \<Rightarrow> int" where
  \<comment> \<open>the exponent a positive number is rounded at: never below -1022, so that the
      spacing of the values stays \<open>2\<^sup>-\<^sup>1\<^sup>0\<^sup>7\<^sup>4\<close> near zero\<close>
  "expo a = max (ilog2 a) (- 1022)"

definition mant :: "rat \<Rightarrow> int" where
  \<comment> \<open>the significand, in units of the spacing: 53 bits\<close>
  "mant a = round_half_even (a / pow2 (expo a - 52))"

definition mag :: "rat \<Rightarrow> rat" where
  "mag a = of_int (mant a) * pow2 (expo a - 52)"

definition round64 :: "rat \<Rightarrow> jsnum" where
  \<comment> \<open>a rounded magnitude of \<open>2\<^sup>1\<^sup>0\<^sup>2\<^sup>4\<close> or more is an infinity\<close>
  "round64 x =
     (if x = 0 then Num 0
      else if 1024 \<le> expo \<bar>x\<bar> \<or> (expo \<bar>x\<bar> = 1023 \<and> mant \<bar>x\<bar> = 2 ^ 53)
           then (if x < 0 then NInf else PInf)
           else Num (if x < 0 then - mag \<bar>x\<bar> else mag \<bar>x\<bar>))"

definition js_lit :: "rat \<Rightarrow> jsnum" where
  \<comment> \<open>a decimal literal of the source text denotes the binary64 value nearest to it\<close>
  "js_lit q = round64 q"

fun js_neg :: "jsnum \<Rightarrow> bool" where
  "js_neg NInf = True"
| "js_neg (Num a) = (a < 0)"
| "js_neg _ = False"

fun js_add :: "jsnum \<Rightarrow> jsnum \<Rightarrow> jsnum" where
  "js_add NaN _ = NaN"
| "js_add _ NaN = NaN"
| "js_add (Num a) (Num b) = round64 (a + b)"
| "js_add PInf NInf = NaN"
| "js_add NInf PInf = NaN"
| "js_add PInf _ = PInf"
| "js_add _ PInf = PInf"
| "js_add NInf _ = NInf"
| "js_add _ NInf = NInf"

fun js_mul :: "jsnum \<Rightarrow> jsnum \<Rightarrow> jsnum" where
  "js_mul NaN _ = NaN"
| "js_mul _ NaN = NaN"
| "js_mul (Num a) (Num b) = round64 (a * b)"
| "js_mul x y =
     (if x = Num 0 \<or> y = Num 0 then NaN
      else if js_neg x = js_neg y then PInf else NInf)"

fun js_div :: "jsnum \<Rightarrow> jsnum \<Rightarrow> jsnum" where
  "js_div NaN _ = NaN"
| "js_div _ NaN = NaN"
| "js_div (Num a) (Num b) =
     (if b = 0 then (if a = 0 then NaN else if a < 0 then NInf else PInf)
      else round64 (a / b))"
| "js_div (Num a) _ = Num 0"
| "js_div x (Num b) = (if js_neg x = (b < 0) then PInf else NInf)"
| "js_div _ _ = NaN"

fun js_gt :: "jsnum \<Rightarrow> jsnum \<Rightarrow> bool" where
  \<comment> \<open>the operator \<open>>\<close>: false as soon as one side is not-a-number\<close>
  "js_gt NaN _ = False"
| "js_gt _ NaN = False"
| "js_gt (Num a) (Num b) = (b < a)"
| "js_gt PInf y = (y \<noteq> PInf)"
| "js_gt x NInf = (x \<noteq> NInf)"
| "js_gt _ _ = False"

fun js_le :: "jsnum \<Rightarrow> jsnum \<Rightarrow> bool" where
  \<comment> \<open>the operator \<open><=\<close>\<close>
  "js_le NaN _ = False"
| "js_le _ NaN = False"
| "js_le (Num a) (Num b) = (a \<le> b)"
| "js_le NInf _ = True"
| "js_le _ PInf = True"
| "js_le _ _ = False"

definition Math_max :: "jsnum \<Rightarrow> jsnum \<Rightarrow> jsnum" where
  "Math_max x y = (if x = NaN \<or> y = NaN then NaN else if js_gt x y then x else y)"

definition Math_min :: "jsnum \<Rightarrow> jsnum \<Rightarrow> jsnum" where
  "Math_min x y = (if x = NaN \<or> y = NaN then NaN else if js_gt x y then y else x)"

subsection \<open>The global function parseFloat\<close>

text \<open>
  Strings are sequences of code units below 256, which covers everything a number input
  delivers. \<open>parseFloat\<close> skips leading white space, reads the longest prefix that is a
  signed decimal literal (or \<open>Infinity\<close>) and ignores what follows; without such a
  prefix the result is not-a-number.
\<close>

definition isStrWhiteSpaceChar :: "char \<Rightarrow> bool" where
  "isStrWhiteSpaceChar c = List.member [9, 10, 11, 12, 13, 32, 160 :: nat] (of_char c)"

definition isDigit :: "char \<Rightarrow> bool" where
  "isDigit c = (48 \<le> (of_char c :: nat) \<and> (of_char c :: nat) \<le> 57)"

definition digitsValue :: "string \<Rightarrow> int" where
  "digitsValue ds = foldl (\<lambda>n c. 10 * n + (of_char c - 48)) 0 ds"

definition pow10 :: "int \<Rightarrow> rat" where
  "pow10 e = (if 0 \<le> e then 10 ^ nat e else 1 / 10 ^ nat (- e))"

definition parseExponent :: "string \<Rightarrow> int" where
  \<comment> \<open>an exponent part needs at least one digit; otherwise it is not part of the literal\<close>
  "parseExponent s =
     (case s of
        [] \<Rightarrow> 0
      | c # r \<Rightarrow>
          if c = CHR ''e'' \<or> c = CHR ''E'' then
            (case r of
               [] \<Rightarrow> 0
             | d # r' \<Rightarrow>
                 if d = CHR ''-'' then - digitsValue (takeWhile isDigit r')
                 else if d = CHR ''+'' then digitsValue (takeWhile isDigit r')
                 else digitsValue (takeWhile isDigit r))
          else 0)"

definition parseUnsigned :: "string \<Rightarrow> rat option" where
  \<comment> \<open>digits, an optional fraction, an optional exponent; at least one digit in all\<close>
  "parseUnsigned s =
     (let ip = takeWhile isDigit s;
          r1 = dropWhile isDigit s;
          (fp, r2) = (case r1 of
                        [] \<Rightarrow> ([], [])
                      | c # r \<Rightarrow> if c = CHR ''.'' then (takeWhile isDigit r, dropWhile isDigit r)
                                 else ([], r1))
      in if ip = [] \<and> fp = [] then None
         else Some (of_int (digitsValue (ip @ fp)) / 10 ^ length fp * pow10 (parseExponent r2)))"

definition parseFloat :: "string \<Rightarrow> jsnum" where
  "parseFloat s =
     (let t = dropWhile isStrWhiteSpaceChar s;
          (neg, u) = (case t of
                        [] \<Rightarrow> (False, [])
                      | c # r \<Rightarrow> if c = CHR ''-'' then (True, r)
                                 else if c = CHR ''+'' then (False, r) else (False, t))
      in if take 8 u = ''Infinity'' then (if neg then NInf else PInf)
         else case parseUnsigned u of
                None \<Rightarrow> NaN
              | Some q \<Rightarrow> round64 (if neg then - q else q))"

definition orElse :: "string \<Rightarrow> string \<Rightarrow> string" where
  \<comment> \<open>\<open>s || d\<close> on strings: only the empty string is falsy\<close>
  "orElse s d = (if s = [] then d else s)"

section \<open>Notifications\<close>

datatype toast = ToastSuccess string | ToastError string

record Notifier =
  toasts :: "toast list"  \<comment> \<open>what \<open>toast.success\<close> and \<open>toast.error\<close> were called with, oldest first\<close>

section \<open>The single-student prediction form\<close>

record FormData =
  studentId :: string
  semester :: string
  attendancePct :: string
  internalMarksAvg :: string
  culturalActivityScore :: string
  classParticipationScore :: string
  sportsActivityScore :: string
  curricularActivityScore :: string

datatype Prediction = Pass | Fail

datatype RiskLevel = low | medium | high

record TopFactor =
  feature :: string
  impact :: jsnum

record PredictionResult =
  prediction :: Prediction
  probability :: jsnum
  topFactors :: "TopFactor list"
  riskLevel :: RiskLevel

record PredictionForm = Notifier +
  loading :: bool
  result :: "PredictionResult option"
  formData :: FormData
  submitTimers :: "(nat \<times> FormData) list"
    \<comment> \<open>the timers started with \<open>setTimeout\<close>: the delay in ms and the form data the
        callback is closed over\<close>

text \<open>The constants of the timer callback of \<open>handleSubmit\<close>, one definition each.\<close>

definition attendance :: "FormData \<Rightarrow> jsnum" where
  "attendance fd = parseFloat (attendancePct fd)"

definition internalMarks :: "FormData \<Rightarrow> jsnum" where
  "internalMarks fd = parseFloat (internalMarksAvg fd)"

definition engagement :: "FormData \<Rightarrow> jsnum" where
  "engagement fd =
     js_div
       (js_add
          (js_add
             (js_add (parseFloat (orElse (culturalActivityScore fd) ''0''))
                     (parseFloat (orElse (classParticipationScore fd) ''0'')))
             (parseFloat (orElse (sportsActivityScore fd) ''0'')))
          (parseFloat (orElse (curricularActivityScore fd) ''0'')))
       (js_lit 4)"

definition score :: "FormData \<Rightarrow> jsnum" where
  "score fd =
     js_add
       (js_add (js_mul (attendance fd) (js_lit 0.3))
               (js_mul (internalMarks fd) (js_lit 0.5)))
       (js_mul (engagement fd) (js_lit 2))"

definition probability_of :: "FormData \<Rightarrow> jsnum" where
  "probability_of fd =
     Math_min (Math_max (js_div (score fd) (js_lit 100)) (js_lit 0.1)) (js_lit 0.95)"

definition prediction_of :: "FormData \<Rightarrow> Prediction" where
  "prediction_of fd = (if js_gt (probability_of fd) (js_lit 0.5) then Pass else Fail)"

definition riskLevel_of :: "FormData \<Rightarrow> RiskLevel" where
  "riskLevel_of fd =
     (if js_gt (probability_of fd) (js_lit 0.7) then low
      else if js_gt (probability_of fd) (js_lit 0.4) then medium
      else high)"

definition handleSubmit_result :: "FormData \<Rightarrow> PredictionResult" where
  \<comment> \<open>the object handed to \<open>setResult\<close>\<close>
  "handleSubmit_result fd =
     \<lparr> prediction = prediction_of fd,
       probability = probability_of fd,
       topFactors =
         [ \<lparr> feature = ''Internal Marks'', impact = internalMarks fd \<rparr>,
           \<lparr> feature = ''Attendance'', impact = attendance fd \<rparr>,
           \<lparr> feature = ''Engagement Index'', impact = js_mul (engagement fd) (js_lit 10) \<rparr> ],
       riskLevel = riskLevel_of fd \<rparr>"

definition handleSubmit :: "PredictionForm \<Rightarrow> PredictionForm" where
  \<comment> \<open>the submit handler itself: enter the loading state and start the 1500 ms timer\<close>
  "handleSubmit s = s\<lparr> loading := True, submitTimers := submitTimers s @ [(1500, formData s)] \<rparr>"

definition handleSubmit_timeout :: "FormData \<Rightarrow> PredictionForm \<Rightarrow> PredictionForm" where
  \<comment> \<open>the timer callback, closed over the form data of the submission\<close>
  "handleSubmit_timeout fd s =
     s\<lparr> result := Some (handleSubmit_result fd),
        toasts := toasts s @ [ToastSuccess ''Prediction completed successfully!''],
        loading := False \<rparr>"

definition clamp :: "jsnum \<Rightarrow> jsnum \<Rightarrow> jsnum \<Rightarrow> jsnum" where
  \<comment> \<open>the specification's \<open>clamp(x, lo, hi)\<close>, for comparison with the nested
      \<open>Math.min(Math.max(x, lo), hi)\<close> of the source\<close>
  "clamp x lo hi = (if js_gt lo x then lo else if js_gt x hi then hi else x)"

section \<open>The bulk upload view\<close>

record File =
  name :: string

record Download =
  blobParts :: "string list"  \<comment> \<open>the parts the blob is made of\<close>
  blobType :: string          \<comment> \<open>the blob's \<open>type\<close>\<close>
  download :: string          \<comment> \<open>the anchor's \<open>download\<close> attribute: the file name\<close>

record BulkUpload = Notifier +
  "file" :: "File option"  \<comment> \<open>the state variable \<open>file\<close>\<close>
  uploading :: bool
  uploadTimers :: "(nat \<times> File) list"
    \<comment> \<open>the timers started with \<open>setTimeout\<close>: the delay in ms and the file the callback
        is closed over\<close>
  downloads :: "Download list"  \<comment> \<open>the anchors clicked so far, oldest first\<close>

definition BulkUpload_init :: BulkUpload where
  \<comment> \<open>the view as it mounts: the initial values of its two state variables, nothing emitted yet\<close>
  "BulkUpload_init =
     \<lparr> toasts = [], file = None, uploading = False, uploadTimers = [], downloads = [] \<rparr>"

definition handleFileChange :: "File list option \<Rightarrow> BulkUpload \<Rightarrow> BulkUpload" where
  \<comment> \<open>the argument is \<open>e.target.files\<close>: \<open>null\<close> or a list of files, possibly empty\<close>
  "handleFileChange files s =
     (case files of
        Some (f # _) \<Rightarrow>
          s\<lparr> file := Some f, toasts := toasts s @ [ToastSuccess (''File selected: '' @ name f)] \<rparr>
      | _ \<Rightarrow> s)"

definition handleUpload :: "BulkUpload \<Rightarrow> BulkUpload" where
  "handleUpload s =
     (case file s of
        None \<Rightarrow> s\<lparr> toasts := toasts s @ [ToastError ''Please select a file first''] \<rparr>
      | Some f \<Rightarrow> s\<lparr> uploading := True, uploadTimers := uploadTimers s @ [(2000, f)] \<rparr>)"

definition handleUpload_timeout :: "File \<Rightarrow> BulkUpload \<Rightarrow> BulkUpload" where
  \<comment> \<open>the timer callback, closed over the file of the upload\<close>
  "handleUpload_timeout f s =
     s\<lparr> toasts := toasts s @ [ToastSuccess (''Successfully processed '' @ name f)],
        uploading := False,
        file := None \<rparr>"

definition newline :: string where
  "newline = [char_of (10 :: nat)]"

definition csvContent :: string where
  "csvContent =
     ''student_id,semester,attendance_pct,internal_marks_avg,cultural_activity_score,class_participation_score,sports_activity_score,curricular_activity_score''
     @ newline @ ''1DA23IS001,5,87.5,72,7,8,5,9''
     @ newline @ ''1DA23IS002,5,62.0,48,3,4,6,2''
     @ newline @ ''1DA23IS003,6,91.2,85,9,9,7,10''"

definition downloadTemplate :: "BulkUpload \<Rightarrow> BulkUpload" where
  "downloadTemplate s =
     s\<lparr> downloads := downloads s @
          [\<lparr> blobParts = [csvContent], blobType = ''text/csv'',
             download = ''student_data_template.csv'' \<rparr>],
        toasts := toasts s @ [ToastSuccess ''Template downloaded successfully!''] \<rparr>"

text \<open>
  The CSV format of the external interface, as the specification prints it: a header row
  and three example rows, one per line.
\<close>

definition spec_csv_rows :: "string list" where
  "spec_csv_rows =
     [''student_id,semester,attendance_pct,internal_marks_avg,cultural_activity_score,class_participation_score,sports_activity_score,curricular_activity_score'',
      ''1DA23IS001,5,87.5,72,7,8,5,9'',
      ''1DA23IS002,5,62.0,48,3,4,6,2'',
      ''1DA23IS003,6,91.2,85,9,9,7,10'']"

fun joinLines :: "string list \<Rightarrow> string" where
  "joinLines [] = []"
| "joinLines [l] = l"
| "joinLines (l # ls) = l @ newline @ joinLines ls"

section \<open>The analytics view\<close>

record RiskSegment =
  segName :: string
  segValue :: nat
  segColor :: string

definition riskDistribution :: "RiskSegment list" where
  "riskDistribution =
     [\<lparr> segName = ''Low Risk'', segValue = 120, segColor = ''hsl(var(--accent))'' \<rparr>,
      \<lparr> segName = ''Medium Risk'', segValue = 45, segColor = ''hsl(var(--chart-4))'' \<rparr>,
      \<lparr> segName = ''High Risk'', segValue = 18, segColor = ''hsl(var(--destructive))'' \<rparr>]"

record SummaryCard =
  cardTitle :: string        \<comment> \<open>the text of \<open>CardTitle\<close>: the figure shown\<close>
  cardDescription :: string  \<comment> \<open>the text of \<open>CardDescription\<close>\<close>

definition summaryCards :: "SummaryCard list" where
  \<comment> \<open>the three cards the view renders first, in order\<close>
  "summaryCards =
     [\<lparr> cardTitle = ''183'', cardDescription = ''Total Students Analyzed'' \<rparr>,
      \<lparr> cardTitle = ''87.4%'', cardDescription = ''Model Accuracy'' \<rparr>,
      \<lparr> cardTitle = ''18'', cardDescription = ''High Risk Students'' \<rparr>]"

definition pieValues :: "RiskSegment list \<Rightarrow> nat list" where
  \<comment> \<open>what the pie chart draws: the \<open>dataKey\<close> field of each entry of its \<open>data\<close>\<close>
  "pieValues segs = map segValue segs"

definition cardFigure :: "string \<Rightarrow> string option" where
  \<comment> \<open>the figure on the card with the given description\<close>
  "cardFigure d = map_option cardTitle (find (\<lambda>c. cardDescription c = d) summaryCards)"

fun showDigits :: "nat \<Rightarrow> string" where
  \<comment> \<open>the decimal numeral of a natural number, as a reader of the card reads it\<close>
  "showDigits n =
     (if n < 10 then [char_of (48 + n)] else showDigits (n div 10) @ [char_of (48 + n mod 10)])"

section \<open>The specification's words\<close>

text \<open>
  The scoring formula as the specification writes it, over the same numbers: an absent
  activity score counts as 0, engagement is the unweighted mean of the four scores, and
  the score weighs attendance by 0.30, internal marks by 0.50 and engagement by 2.0.
\<close>

definition absentAsZero :: "string \<Rightarrow> jsnum" where
  "absentAsZero s = (if s = [] then Num 0 else parseFloat s)"

definition mean4 :: "jsnum \<Rightarrow> jsnum \<Rightarrow> jsnum \<Rightarrow> jsnum \<Rightarrow> jsnum" where
  "mean4 a b c d = js_div (js_add (js_add (js_add a b) c) d) (Num 4)"

definition spec_score :: "jsnum \<Rightarrow> jsnum \<Rightarrow> jsnum \<Rightarrow> jsnum" where
  "spec_score att internal eng =
     js_add (js_add (js_mul (js_lit 0.30) att) (js_mul (js_lit 0.50) internal))
            (js_mul (js_lit 2.0) eng)"

section \<open>Sample submissions\<close>

definition row2 :: FormData where
  \<comment> \<open>the second example row of the CSV template, typed into the form\<close>
  "row2 = \<lparr> studentId = ''1DA23IS002'', semester = ''5'', attendancePct = ''62.0'',
            internalMarksAvg = ''48'', culturalActivityScore = ''3'',
            classParticipationScore = ''4'', sportsActivityScore = ''6'',
            curricularActivityScore = ''2'' \<rparr>"

definition marks80 :: FormData where
  \<comment> \<open>full attendance, internal marks 80, no activity score entered\<close>
  "marks80 = \<lparr> studentId = ''S1'', semester = ''5'', attendancePct = ''100'',
               internalMarksAvg = ''80'', culturalActivityScore = [],
               classParticipationScore = [], sportsActivityScore = [],
               curricularActivityScore = [] \<rparr>"

definition marks20 :: FormData where
  \<comment> \<open>full attendance, internal marks 20, no activity score entered\<close>
  "marks20 = \<lparr> studentId = ''S1'', semester = ''5'', attendancePct = ''100'',
               internalMarksAvg = ''20'', culturalActivityScore = [],
               classParticipationScore = [], sportsActivityScore = [],
               curricularActivityScore = [] \<rparr>"

section \<open>Rounding to binary64\<close>

subsection \<open>Powers of two and the exponent\<close>

lemma pow2_powi: "pow2 e = 2 powi e"
  by (simp add: pow2_def power_int_def power_one_over inverse_eq_divide)

lemma pow2_pos: "0 < pow2 e"
  by (simp add: pow2_powi)

lemma pow2_add: "pow2 (a + b) = pow2 a * pow2 b"
  by (simp add: pow2_powi power_int_add)

lemma pow2_mono: "a \<le> b \<Longrightarrow> pow2 a \<le> pow2 b"
  by (simp add: pow2_powi power_int_increasing)

lemma pow2_of_nat: "pow2 (int n) = 2 ^ n"
  by (simp add: pow2_def)

lemma ilog2_bounds:
  assumes "0 < x"
  shows "pow2 (ilog2 x) \<le> x" and "x < pow2 (ilog2 x + 1)"
proof -
  have "pow2 (ilog2 x) \<le> x \<and> x < pow2 (ilog2 x + 1)"
  proof (cases "1 \<le> x")
    case True
    define n where "n = \<lfloor>x\<rfloor>"
    have n1: "1 \<le> n" using True by (simp add: n_def)
    then have npos: "0 < n" by simp
    from bitlen_bounds [OF npos] have lo: "2 ^ nat (bitlen n - 1) \<le> n" and hi: "n < 2 ^ nat (bitlen n)"
      by auto
    have b1: "1 \<le> bitlen n" using npos by (simp add: bitlen_alt_def)
    have e: "ilog2 x = bitlen n - 1" using True by (simp add: ilog2_def n_def)
    have "pow2 (bitlen n - 1) = of_int (2 ^ nat (bitlen n - 1))"
      using b1 by (simp add: pow2_def)
    also have "\<dots> \<le> of_int n" using lo by (simp only: of_int_le_iff)
    also have "\<dots> \<le> x" by (simp add: n_def)
    finally have A: "pow2 (ilog2 x) \<le> x" by (simp add: e)
    have "n + 1 \<le> 2 ^ nat (bitlen n)" using hi by simp
    then have "(of_int (n + 1) :: rat) \<le> of_int (2 ^ nat (bitlen n))" by (simp only: of_int_le_iff)
    moreover have "x < of_int (n + 1)" using floor_correct [of x] by (simp add: n_def)
    ultimately have "x < of_int (2 ^ nat (bitlen n))" by (rule less_le_trans [rotated])
    moreover have "pow2 (bitlen n) = of_int (2 ^ nat (bitlen n))" using b1 by (simp add: pow2_def)
    ultimately have "x < pow2 (ilog2 x + 1)" by (simp add: e)
    with A show ?thesis by simp
  next
    case False
    define c where "c = \<lceil>1 / x\<rceil>"
    have y1: "1 < 1 / x" using False assms by simp
    then have c2: "2 \<le> c" unfolding c_def by (simp add: le_ceiling_iff)
    then have cpos: "0 < c - 1" by simp
    define k where "k = bitlen (c - 1)"
    from bitlen_bounds [OF cpos] have lo: "2 ^ nat (k - 1) \<le> c - 1" and hi: "c - 1 < 2 ^ nat k"
      by (auto simp: k_def)
    have k1: "1 \<le> k" using cpos by (simp add: k_def bitlen_alt_def)
    have e: "ilog2 x = - k" using False by (simp add: ilog2_def c_def k_def)
    have "c \<le> 2 ^ nat k" using hi by simp
    then have "(of_int c :: rat) \<le> of_int (2 ^ nat k)" by (simp only: of_int_le_iff)
    then have "(of_int c :: rat) \<le> 2 ^ nat k" by simp
    moreover have "1 / x \<le> of_int c" by (simp add: c_def)
    ultimately have "1 / x \<le> 2 ^ nat k" by (rule order_trans [rotated])
    then have "1 / 2 ^ nat k \<le> x" using assms
      by (metis divide_le_eq mult.commute one_le_numeral power_one_right zero_less_numeral zero_less_power)
    then have A: "pow2 (ilog2 x) \<le> x" using k1 by (simp add: e pow2_def)
    have "(of_int (2 ^ nat (k - 1)) :: rat) \<le> of_int (c - 1)" using lo by (simp only: of_int_le_iff)
    then have "(2 ^ nat (k - 1) :: rat) \<le> of_int (c - 1)" by simp
    moreover have "of_int (c - 1) < 1 / x" unfolding c_def using ceiling_correct [of "1 / x"] by simp
    ultimately have "2 ^ nat (k - 1) < 1 / x" by (rule le_less_trans)
    then have "x < 1 / 2 ^ nat (k - 1)" using assms
      by (simp add: field_simps)
    moreover have "pow2 (- k + 1) = 1 / 2 ^ nat (k - 1)"
      using k1 by (cases "k = 1") (simp_all add: pow2_def)
    ultimately have "x < pow2 (ilog2 x + 1)" by (simp add: e)
    with A show ?thesis by simp
  qed
  then show "pow2 (ilog2 x) \<le> x" and "x < pow2 (ilog2 x + 1)" by simp_all
qed

lemma pow2_less_imp: "pow2 a < pow2 b \<Longrightarrow> a < b"
  using pow2_mono [of b a] by (cases "a < b") auto

lemma ilog2_mono:
  assumes "0 < x" and "x \<le> y"
  shows "ilog2 x \<le> ilog2 y"
proof -
  have "0 < y" using assms by simp
  have "pow2 (ilog2 x) \<le> x" by (rule ilog2_bounds [OF assms(1)])
  also note assms(2)
  also have "y < pow2 (ilog2 y + 1)" by (rule ilog2_bounds [OF \<open>0 < y\<close>])
  finally have "ilog2 x < ilog2 y + 1" by (rule pow2_less_imp)
  then show ?thesis by simp
qed

subsection \<open>Rounding to an integer, ties to even\<close>

lemma round_half_even_of_int: "round_half_even (of_int n) = n"
  by (simp add: round_half_even_def)

lemma round_half_even_floor:
  "round_half_even x = \<lfloor>x\<rfloor> \<or> round_half_even x = \<lfloor>x\<rfloor> + 1"
  by (simp add: round_half_even_def Let_def)

lemma round_half_even_mono:
  assumes "x \<le> y"
  shows "round_half_even x \<le> round_half_even y"
proof (cases "\<lfloor>x\<rfloor> = \<lfloor>y\<rfloor>")
  case True
  then show ?thesis using assms
    by (auto simp add: round_half_even_def Let_def)
next
  case False
  then have "\<lfloor>x\<rfloor> + 1 \<le> \<lfloor>y\<rfloor>" using floor_mono [OF assms] by simp
  moreover have "round_half_even x \<le> \<lfloor>x\<rfloor> + 1"
    using round_half_even_floor [of x] by auto
  moreover have "\<lfloor>y\<rfloor> \<le> round_half_even y"
    using round_half_even_floor [of y] by auto
  ultimately show ?thesis by simp
qed

lemma round_half_even_ge: "of_int n \<le> x \<Longrightarrow> n \<le> round_half_even x"
  using round_half_even_mono [of "of_int n" x] by (simp add: round_half_even_of_int)

lemma round_half_even_le: "x \<le> of_int n \<Longrightarrow> round_half_even x \<le> n"
  using round_half_even_mono [of x "of_int n"] by (simp add: round_half_even_of_int)

subsection \<open>The rounded magnitude\<close>

lemma expo_mono: "0 < x \<Longrightarrow> x \<le> y \<Longrightarrow> expo x \<le> expo y"
  using ilog2_mono [of x y] by (simp add: expo_def)

lemma pow2_split: "pow2 53 * pow2 (e - 52) = pow2 (e + 1)"
  using pow2_add [of 53 "e - 52"] by (simp add: add.commute)

lemma mant_le: 
  assumes "0 < a"
  shows "mant a \<le> 2 ^ 53"
proof -
  have "ilog2 a + 1 \<le> expo a + 1" by (simp add: expo_def)
  then have "pow2 (ilog2 a + 1) \<le> pow2 (expo a + 1)" by (rule pow2_mono)
  with ilog2_bounds(2) [OF assms] have "a < pow2 (expo a + 1)" by simp
  also have "\<dots> = pow2 53 * pow2 (expo a - 52)"
    by (simp only: pow2_split)
  finally have "a / pow2 (expo a - 52) < pow2 53"
    using pow2_pos [of "expo a - 52"] by (simp add: field_simps)
  also have "pow2 53 = of_int (2 ^ 53)" by (simp add: pow2_def)
  finally have "a / pow2 (expo a - 52) \<le> of_int (2 ^ 53)" by simp
  then show ?thesis unfolding mant_def by (rule round_half_even_le)
qed

lemma mant_ge:
  assumes "0 < a" and "- 1022 \<le> ilog2 a"
  shows "2 ^ 52 \<le> mant a"
proof -
  have e: "expo a = ilog2 a" using assms(2) by (simp add: expo_def)
  have "pow2 52 * pow2 (expo a - 52) = pow2 (ilog2 a)"
    by (simp add: pow2_add [symmetric] e)
  also have "\<dots> \<le> a" by (rule ilog2_bounds(1) [OF assms(1)])
  finally have "pow2 52 \<le> a / pow2 (expo a - 52)"
    using pow2_pos [of "expo a - 52"] by (simp add: field_simps)
  moreover have "pow2 52 = of_int (2 ^ 52)" by (simp add: pow2_def)
  ultimately have "of_int (2 ^ 52) \<le> a / pow2 (expo a - 52)" by simp
  then show ?thesis unfolding mant_def by (rule round_half_even_ge)
qed

lemma mant_nonneg: "0 < a \<Longrightarrow> 0 \<le> mant a"
  unfolding mant_def using pow2_pos [of "expo a - 52"]
  by (intro round_half_even_ge) simp

lemma mag_nonneg: "0 < a \<Longrightarrow> 0 \<le> mag a"
  using mant_nonneg [of a] pow2_pos [of "expo a - 52"] by (simp add: mag_def)

lemma mag_le_pow2: 
  assumes "0 < a"
  shows "mag a \<le> pow2 (expo a + 1)"
proof -
  have "of_int (mant a) \<le> (of_int (2 ^ 53) :: rat)"
    using mant_le [OF assms] by (simp only: of_int_le_iff)
  then have "of_int (mant a) \<le> pow2 53" by (simp add: pow2_def)
  then have "mag a \<le> pow2 53 * pow2 (expo a - 52)"
    unfolding mag_def using pow2_pos [of "expo a - 52"] by (simp add: mult_right_mono)
  also have "\<dots> = pow2 (expo a + 1)"
    by (simp only: pow2_split)
  finally show ?thesis .
qed

lemma mag_ge_pow2:
  assumes "0 < a" and "- 1022 \<le> ilog2 a"
  shows "pow2 (expo a) \<le> mag a"
proof -
  have "(of_int (2 ^ 52) :: rat) \<le> of_int (mant a)"
    using mant_ge [OF assms] by (simp only: of_int_le_iff)
  then have "pow2 52 \<le> of_int (mant a)" by (simp add: pow2_def)
  then have "pow2 52 * pow2 (expo a - 52) \<le> mag a"
    unfolding mag_def using pow2_pos [of "expo a - 52"] by (simp add: mult_right_mono)
  then show ?thesis by (simp add: pow2_add [symmetric])
qed

lemma mag_mono:
  assumes "0 < x" and "x \<le> y"
  shows "mag x \<le> mag y"
proof (cases "expo x = expo y")
  case True
  have "x / pow2 (expo y - 52) \<le> y / pow2 (expo y - 52)"
    using assms(2) pow2_pos [of "expo y - 52"] by (simp add: divide_right_mono)
  then have "mant x \<le> mant y"
    unfolding mant_def True by (rule round_half_even_mono)
  then have "(of_int (mant x) :: rat) \<le> of_int (mant y)" by (simp only: of_int_le_iff)
  then show ?thesis
    unfolding mag_def True using pow2_pos [of "expo y - 52"] by (simp add: mult_right_mono)
next
  case False
  have ypos: "0 < y" using assms by simp
  have lt: "expo x < expo y" using expo_mono [OF assms] False by simp
  then have "- 1022 \<le> ilog2 y" by (auto simp add: expo_def max_def split: if_splits)
  then have "pow2 (expo y) \<le> mag y" by (rule mag_ge_pow2 [OF ypos])
  moreover have "pow2 (expo x + 1) \<le> pow2 (expo y)" using lt by (intro pow2_mono) simp
  moreover have "mag x \<le> pow2 (expo x + 1)" by (rule mag_le_pow2 [OF assms(1)])
  ultimately show ?thesis by simp
qed

subsection \<open>Computing a rounding\<close>

text \<open>
  A rounding is settled by naming its exponent and its significand: what remains are
  comparisons of numerals.
\<close>

lemma ilog2_unique:
  assumes "pow2 e \<le> x" and "x < pow2 (e + 1)"
  shows "ilog2 x = e"
proof -
  have xpos: "0 < x" using pow2_pos [of e] assms(1) by simp
  have "pow2 (ilog2 x) \<le> x" by (rule ilog2_bounds [OF xpos])
  also note assms(2)
  finally have a: "ilog2 x < e + 1" by (rule pow2_less_imp)
  note assms(1)
  also have "x < pow2 (ilog2 x + 1)" by (rule ilog2_bounds [OF xpos])
  finally have "e < ilog2 x + 1" by (rule pow2_less_imp)
  with a show ?thesis by simp
qed

lemma round_half_even_near:
  assumes "of_int m - 1 / 2 < y" and "y < of_int m + 1 / 2"
  shows "round_half_even y = m"
proof (cases "of_int m \<le> y")
  case True
  then have "\<lfloor>y\<rfloor> = m" using assms(2) by (simp add: floor_unique)
  then show ?thesis using assms(2) by (simp add: round_half_even_def)
next
  case False
  then have "\<lfloor>y\<rfloor> = m - 1" using assms(1) by (intro floor_unique) simp_all
  then show ?thesis using assms(1) by (simp add: round_half_even_def)
qed

lemma round64_pos_at:
  assumes "pow2 e \<le> x" and "x < pow2 (e + 1)" and "- 1022 \<le> e" and "e \<le> 1023"
    and "round_half_even (x / pow2 (e - 52)) = m"
    and "e < 1023 \<or> m \<noteq> 2 ^ 53"
  shows "round64 x = Num (of_int m * pow2 (e - 52))"
    and "round64 (- x) = Num (- (of_int m * pow2 (e - 52)))"
proof -
  have xpos: "0 < x" using pow2_pos [of e] assms(1) by simp
  have e: "expo x = e"
    using ilog2_unique [OF assms(1,2)] assms(3) by (simp add: expo_def)
  have m: "mant x = m"
    unfolding mant_def e by (rule assms(5))
  show "round64 x = Num (of_int m * pow2 (e - 52))"
    using xpos assms(4,6) by (auto simp add: round64_def e m mag_def)
  show "round64 (- x) = Num (- (of_int m * pow2 (e - 52)))"
    using xpos assms(4,6) by (auto simp add: round64_def e m mag_def)
qed

lemma round64_pos_eval:
  assumes "pow2 e \<le> x" and "x < pow2 (e + 1)" and "- 1022 \<le> e" and "e \<le> 1023"
    and "of_int m - 1 / 2 < x / pow2 (e - 52)" and "x / pow2 (e - 52) < of_int m + 1 / 2"
    and "e < 1023 \<or> m \<noteq> 2 ^ 53"
  shows "round64 x = Num (of_int m * pow2 (e - 52))"
  using assms(1-4) round_half_even_near [OF assms(5,6)] assms(7) by (rule round64_pos_at(1))

lemma round64_neg_eval:
  assumes "pow2 e \<le> x" and "x < pow2 (e + 1)" and "- 1022 \<le> e" and "e \<le> 1023"
    and "of_int m - 1 / 2 < x / pow2 (e - 52)" and "x / pow2 (e - 52) < of_int m + 1 / 2"
    and "e < 1023 \<or> m \<noteq> 2 ^ 53"
  shows "round64 (- x) = Num (- (of_int m * pow2 (e - 52)))"
  using assms(1-4) round_half_even_near [OF assms(5,6)] assms(7) by (rule round64_pos_at(2))

subsection \<open>Overflow and monotonicity\<close>

lemma overflow_iff:
  assumes "0 < a"
  shows "1024 \<le> expo a \<or> (expo a = 1023 \<and> mant a = 2 ^ 53) \<longleftrightarrow> pow2 1024 \<le> mag a"
    (is "?ovf \<longleftrightarrow> _")
proof
  assume ?ovf
  then consider "1024 \<le> expo a" | "expo a = 1023" "mant a = 2 ^ 53" by auto
  then show "pow2 1024 \<le> mag a"
  proof cases
    case 1
    then have "- 1022 \<le> ilog2 a" by (auto simp add: expo_def max_def split: if_splits)
    then have "pow2 (expo a) \<le> mag a" by (rule mag_ge_pow2 [OF assms])
    moreover have "pow2 1024 \<le> pow2 (expo a)" using 1 by (rule pow2_mono)
    ultimately show ?thesis by simp
  next
    case 2
    then show ?thesis by (simp add: mag_def pow2_def)
  qed
next
  assume big: "pow2 1024 \<le> mag a"
  show ?ovf
  proof (rule ccontr)
    assume "\<not> ?ovf"
    then have le: "expo a \<le> 1023" and ne: "expo a = 1023 \<Longrightarrow> mant a \<noteq> 2 ^ 53"
      by auto
    show False
    proof (cases "expo a = 1023")
      case True
      then have "mant a \<le> 2 ^ 53 - 1" using mant_le [OF assms] ne by simp
      then have "(of_int (mant a) :: rat) \<le> of_int (2 ^ 53 - 1)" by (simp only: of_int_le_iff)
      then have "mag a \<le> of_int (2 ^ 53 - 1) * pow2 971"
        unfolding mag_def True using pow2_pos [of 971] by (simp add: mult_right_mono)
      also have "\<dots> < pow2 1024" by (simp add: pow2_def)
      finally show False using big by simp
    next
      case False
      then have "expo a + 1 \<le> 1023" using le by simp
      then have "pow2 (expo a + 1) \<le> pow2 1023" by (rule pow2_mono)
      moreover have "pow2 1023 < pow2 1024" by (simp add: pow2_def)
      ultimately show False using mag_le_pow2 [OF assms] big by simp
    qed
  qed
qed

lemma round64_pos:
  "0 < x \<Longrightarrow> round64 x = (if pow2 1024 \<le> mag x then PInf else Num (mag x))"
  using overflow_iff [of x] by (simp add: round64_def)

lemma round64_neg:
  "x < 0 \<Longrightarrow> round64 x = (if pow2 1024 \<le> mag (- x) then NInf else Num (- mag (- x)))"
  using overflow_iff [of "- x"] by (simp add: round64_def)

lemma round64_not_NaN [simp]: "round64 x \<noteq> NaN"
  by (simp add: round64_def)

lemma round64_mono:
  assumes "x \<le> y"
  shows "js_le (round64 x) (round64 y)"
proof -
  consider "0 < x" | "y < 0" | "x \<le> 0" "0 \<le> y" by linarith
  then show ?thesis
  proof cases
    case 1
    then have "0 < y" using assms by simp
    with 1 mag_mono [OF 1 assms] show ?thesis by (simp add: round64_pos)
  next
    case 2
    then have x: "x < 0" using assms by simp
    have "mag (- y) \<le> mag (- x)" using 2 assms by (intro mag_mono) simp_all
    with 2 x show ?thesis by (simp add: round64_neg)
  next
    case 3
    have a: "round64 x = NInf \<or> (\<exists>r\<le>0. round64 x = Num r)"
      using 3(1) mag_nonneg [of "- x"] by (cases "x = 0") (auto simp add: round64_neg round64_def)
    have b: "round64 y = PInf \<or> (\<exists>r\<ge>0. round64 y = Num r)"
      using 3(2) mag_nonneg [of y] by (cases "y = 0") (auto simp add: round64_pos round64_def)
    from a b show ?thesis by auto
  qed
qed

lemma round_half_even_tie:
  assumes "y = of_int f + 1 / 2"
  shows "round_half_even y = (if even f then f else f + 1)"
proof -
  have "\<lfloor>y\<rfloor> = f" unfolding assms by (intro floor_unique) simp_all
  then show ?thesis by (simp add: round_half_even_def assms)
qed

lemma round64_pos_tie:
  assumes "pow2 e \<le> x" and "x < pow2 (e + 1)" and "- 1022 \<le> e" and "e \<le> 1023"
    and "x / pow2 (e - 52) = of_int f + 1 / 2"
    and "e < 1023 \<or> (if even f then f else f + 1) \<noteq> 2 ^ 53"
  shows "round64 x = Num (of_int (if even f then f else f + 1) * pow2 (e - 52))"
  using assms(1-4) round_half_even_tie [OF assms(5)] assms(6) by (rule round64_pos_at(1))

section \<open>The operators preserve order\<close>

lemma js_le_not_NaN: "js_le x y \<Longrightarrow> x \<noteq> NaN \<and> y \<noteq> NaN"
  by (cases x; cases y) simp_all

lemma js_le_refl: "x \<noteq> NaN \<Longrightarrow> js_le x x"
  by (cases x) simp_all

lemma js_le_trans: "js_le x y \<Longrightarrow> js_le y z \<Longrightarrow> js_le x z"
  by (cases x; cases y; cases z) simp_all

lemma js_add_not_NaN: "x \<noteq> NaN \<Longrightarrow> js_add x (Num b) \<noteq> NaN" "x \<noteq> NaN \<Longrightarrow> js_add (Num b) x \<noteq> NaN"
  by (cases x; simp)+

lemma js_add_mono:
  assumes "js_le x x'" and "js_le y y'" and "js_add x y \<noteq> NaN" and "js_add x' y' \<noteq> NaN"
  shows "js_le (js_add x y) (js_add x' y')"
proof -
  have n: "js_le (round64 u) PInf" "js_le NInf (round64 u)" for u
    by (cases "round64 u"; simp)+
  show ?thesis
    using assms by (cases x; cases x'; cases y; cases y') (simp_all add: round64_mono n)
qed

lemma js_mul_pos_mono:
  assumes "js_le x x'" and "0 < c"
  shows "js_le (js_mul x (Num c)) (js_mul x' (Num c))"
proof -
  have n: "js_le (round64 u) PInf" "js_le NInf (round64 u)" for u
    by (cases "round64 u"; simp)+
  show ?thesis
    using assms by (cases x; cases x') (simp_all add: round64_mono n mult_right_mono)
qed

lemma js_div_pos_mono:
  assumes "js_le x x'" and "0 < c"
  shows "js_le (js_div x (Num c)) (js_div x' (Num c))"
proof -
  have n: "js_le (round64 u) PInf" "js_le NInf (round64 u)" for u
    by (cases "round64 u"; simp)+
  show ?thesis
    using assms by (cases x; cases x') (simp_all add: round64_mono n divide_right_mono)
qed

lemma Math_max_mono: "js_le x x' \<Longrightarrow> js_le (Math_max x (Num c)) (Math_max x' (Num c))"
  by (cases x; cases x') (auto simp add: Math_max_def)

lemma Math_min_mono: "js_le x x' \<Longrightarrow> js_le (Math_min x (Num c)) (Math_min x' (Num c))"
  by (cases x; cases x') (auto simp add: Math_min_def)

lemma round64_between:
  assumes "lo \<le> x" and "x \<le> hi" and "round64 lo = Num rl" and "round64 hi = Num rh"
  shows "\<exists>r. round64 x = Num r \<and> rl \<le> r \<and> r \<le> rh"
  using round64_mono [OF assms(1)] round64_mono [OF assms(2)] assms(3,4)
  by (cases "round64 x") simp_all

lemma round64_bound:
  assumes "round64 x = Num r"
  shows "\<bar>r\<bar> < pow2 1024"
proof -
  consider "x = 0" | "0 < x" | "x < 0" by linarith
  then show ?thesis
  proof cases
    case 1
    then show ?thesis using assms pow2_pos [of 1024] by (simp add: round64_def)
  next
    case 2
    then show ?thesis using assms mag_nonneg [OF 2]
      by (auto simp add: round64_pos split: if_splits)
  next
    case 3
    then show ?thesis using assms mag_nonneg [of "- x"]
      by (auto simp add: round64_neg split: if_splits)
  qed
qed

section \<open>Literals and bounds\<close>

lemma round64_lit_3_10: "round64 (3 / 10) = Num (5404319552844595 / 18014398509481984)"
  using round64_pos_eval [of "-2" "(3 / 10)" "5404319552844595"] by (simp add: pow2_def)

lemma round64_lit_5_10: "round64 (1 / 2) = Num (1 / 2)"
  using round64_pos_eval [of "-1" "(1 / 2)" "4503599627370496"] by (simp add: pow2_def)

lemma round64_lit_2: "round64 2 = Num 2"
  using round64_pos_eval [of "1" "2" "4503599627370496"] by (simp add: pow2_def)

lemma round64_lit_4: "round64 4 = Num 4"
  using round64_pos_eval [of "2" "4" "4503599627370496"] by (simp add: pow2_def)

lemma round64_lit_100: "round64 100 = Num 100"
  using round64_pos_eval [of "6" "100" "7036874417766400"] by (simp add: pow2_def)

lemma round64_lit_10: "round64 10 = Num 10"
  using round64_pos_eval [of "3" "10" "5629499534213120"] by (simp add: pow2_def)

lemma round64_lit_1_10: "round64 (1 / 10) = Num (3602879701896397 / 36028797018963968)"
  using round64_pos_eval [of "-4" "(1 / 10)" "7205759403792794"] by (simp add: pow2_def)

lemma round64_lit_95_100: "round64 (19 / 20) = Num (4278419646001971 / 4503599627370496)"
  using round64_pos_eval [of "-1" "(19 / 20)" "8556839292003942"] by (simp add: pow2_def)

lemma round64_lit_7_10: "round64 (7 / 10) = Num (3152519739159347 / 4503599627370496)"
  using round64_pos_eval [of "-1" "(7 / 10)" "6305039478318694"] by (simp add: pow2_def)

lemma round64_lit_4_10: "round64 (2 / 5) = Num (3602879701896397 / 9007199254740992)"
  using round64_pos_eval [of "-2" "(2 / 5)" "7205759403792794"] by (simp add: pow2_def)

lemma round64_5p1020: "round64 (5 * 2 ^ 1020) = Num (5 * 2 ^ 1020)"
  using round64_pos_eval [of 1022 "5 * 2 ^ 1020" "5 * 2 ^ 50"] by (simp add: pow2_def)

lemma round64_m5p1020: "round64 (- (5 * 2 ^ 1020)) = Num (- (5 * 2 ^ 1020))"
  using round64_neg_eval [of 1022 "5 * 2 ^ 1020" "5 * 2 ^ 50"] by (simp add: pow2_def)

lemma round64_p1023: "round64 (2 ^ 1023) = Num (2 ^ 1023)"
  using round64_pos_eval [of 1023 "2 ^ 1023" "2 ^ 52"] by (simp add: pow2_def)

lemma round64_mp1023: "round64 (- (2 ^ 1023)) = Num (- (2 ^ 1023))"
  using round64_neg_eval [of 1023 "2 ^ 1023" "2 ^ 52"] by (simp add: pow2_def)

lemma round64_13p1020: "round64 (13 * 2 ^ 1020) = Num (13 * 2 ^ 1020)"
  using round64_pos_eval [of 1023 "13 * 2 ^ 1020" "13 * 2 ^ 49"] by (simp add: pow2_def)

lemma round64_m13p1020: "round64 (- (13 * 2 ^ 1020)) = Num (- (13 * 2 ^ 1020))"
  using round64_neg_eval [of 1023 "13 * 2 ^ 1020" "13 * 2 ^ 49"] by (simp add: pow2_def)

lemma js_lit_3_10: "js_lit 0.3 = Num (5404319552844595 / 18014398509481984)"
  by (simp add: js_lit_def round64_lit_3_10)

lemma js_lit_5_10: "js_lit 0.5 = Num (1 / 2)"
  by (simp add: js_lit_def round64_lit_5_10)

lemma js_lit_2: "js_lit 2 = Num 2"
  by (simp add: js_lit_def round64_lit_2)

lemma js_lit_4: "js_lit 4 = Num 4"
  by (simp add: js_lit_def round64_lit_4)

lemma js_lit_100: "js_lit 100 = Num 100"
  by (simp add: js_lit_def round64_lit_100)

lemma js_lit_10: "js_lit 10 = Num 10"
  by (simp add: js_lit_def round64_lit_10)

lemma js_lit_1_10: "js_lit 0.1 = Num (3602879701896397 / 36028797018963968)"
  by (simp add: js_lit_def round64_lit_1_10)

lemma js_lit_95_100: "js_lit 0.95 = Num (4278419646001971 / 4503599627370496)"
  by (simp add: js_lit_def round64_lit_95_100)

lemma js_lit_7_10: "js_lit 0.7 = Num (3152519739159347 / 4503599627370496)"
  by (simp add: js_lit_def round64_lit_7_10)

lemma js_lit_4_10: "js_lit 0.4 = Num (3602879701896397 / 9007199254740992)"
  by (simp add: js_lit_def round64_lit_4_10)

lemma js_lit_1_2: "js_lit (1 / 2) = Num (1 / 2)"
  by (simp add: js_lit_def round64_lit_5_10)

lemma js_lit_19_20: "js_lit (19 / 20) = Num (4278419646001971 / 4503599627370496)"
  by (simp add: js_lit_def round64_lit_95_100)

lemma js_lit_2_5: "js_lit (2 / 5) = Num (3602879701896397 / 9007199254740992)"
  by (simp add: js_lit_def round64_lit_4_10)

lemmas js_lits =
  js_lit_3_10 js_lit_5_10 js_lit_2 js_lit_4 js_lit_100 js_lit_10 js_lit_1_10 js_lit_95_100
  js_lit_7_10 js_lit_4_10 js_lit_1_2 js_lit_19_20 js_lit_2_5

text \<open>
  A familiar consequence of the rounding: 0.1 + 0.2 is 0.30000000000000004, not the value
  of the literal 0.3.
\<close>

lemma round64_lit_2_10: "round64 (1 / 5) = Num (3602879701896397 / 18014398509481984)"
  using round64_pos_eval [of "-3" "(1 / 5)" "7205759403792794"] by (simp add: pow2_def)

lemma round64_sum_1_10_2_10:
  "round64 (10808639105689191 / 36028797018963968) = Num (1351079888211149 / 4503599627370496)"
  using round64_pos_tie [of "-2" "(10808639105689191 / 36028797018963968)" "5404319552844595"]
  by (simp add: pow2_def)

lemma tenth_plus_fifth:
  "js_add (js_lit 0.1) (js_lit 0.2) = Num (1351079888211149 / 4503599627370496)"
  "js_add (js_lit 0.1) (js_lit 0.2) \<noteq> js_lit 0.3"
  by (simp_all add: js_lit_def round64_lit_1_10 round64_lit_2_10 round64_lit_3_10
      round64_sum_1_10_2_10)

lemma js_add_Num_mono:
  assumes "js_le x x'" and "b \<le> b'"
  shows "js_le (js_add x (Num b)) (js_add x' (Num b'))"
  using assms js_le_not_NaN [OF assms(1)]
  by (intro js_add_mono js_add_not_NaN) simp_all

section \<open>The score grows with its inputs\<close>

lemma parseFloat_bound:
  assumes "parseFloat s = Num r"
  shows "\<bar>r\<bar> < 2 ^ 1024"
proof -
  obtain q where "round64 q = Num r"
    using assms by (auto simp add: parseFloat_def Let_def split: prod.splits if_splits option.splits)
  then show ?thesis using round64_bound [of q r] by (simp add: pow2_def)
qed

lemma weighted_sum_finite:
  assumes "\<bar>a\<bar> < 2 ^ 1024" and "\<bar>i\<bar> < 2 ^ 1024"
  shows "\<exists>r. js_add (js_mul (Num a) (js_lit 0.3)) (js_mul (Num i) (js_lit 0.5)) = Num r"
proof -
  have "- (5 * 2 ^ 1020) \<le> a * (5404319552844595 / 18014398509481984)"
    and "a * (5404319552844595 / 18014398509481984) \<le> 5 * 2 ^ 1020"
    using assms(1) by (simp_all add: abs_less_iff)
  from round64_between [OF this round64_m5p1020 round64_5p1020]
  obtain r1 where r1: "round64 (a * (5404319552844595 / 18014398509481984)) = Num r1"
    "- (5 * 2 ^ 1020) \<le> r1" "r1 \<le> 5 * 2 ^ 1020" by blast
  have "- (2 ^ 1023) \<le> i * (1 / 2)" and "i * (1 / 2) \<le> 2 ^ 1023"
    using assms(2) by (simp_all add: abs_less_iff)
  from round64_between [OF this round64_mp1023 round64_p1023]
  obtain r2 where r2: "round64 (i * (1 / 2)) = Num r2" "- (2 ^ 1023) \<le> r2" "r2 \<le> 2 ^ 1023"
    by blast
  have "- (13 * 2 ^ 1020) \<le> r1 + r2" and "r1 + r2 \<le> 13 * 2 ^ 1020"
    using r1(2,3) r2(2,3) by simp_all
  from round64_between [OF this round64_m13p1020 round64_13p1020]
  obtain r where "round64 (r1 + r2) = Num r" by blast
  then show ?thesis using r1(1) r2(1) by (simp add: js_lits)
qed

lemma score_mono:
  assumes "attendance fd = Num a" and "attendance fd' = Num a'" and "a \<le> a'"
    and "internalMarks fd = Num i" and "internalMarks fd' = Num i'" and "i \<le> i'"
    and "js_le (engagement fd) (engagement fd')"
  shows "js_le (score fd) (score fd')"
proof -
  have ba: "\<bar>a\<bar> < 2 ^ 1024" "\<bar>a'\<bar> < 2 ^ 1024" "\<bar>i\<bar> < 2 ^ 1024" "\<bar>i'\<bar> < 2 ^ 1024"
    using assms(1,2,4,5) by (auto simp add: attendance_def internalMarks_def dest: parseFloat_bound)
  let ?u = "\<lambda>a i. js_add (js_mul (Num a) (js_lit 0.3)) (js_mul (Num i) (js_lit 0.5))"
  obtain r r' where u: "?u a i = Num r" "?u a' i' = Num r'"
    using weighted_sum_finite [OF ba(1,3)] weighted_sum_finite [OF ba(2,4)] by blast
  have "js_le (js_mul (Num a) (js_lit 0.3)) (js_mul (Num a') (js_lit 0.3))"
    and "js_le (js_mul (Num i) (js_lit 0.5)) (js_mul (Num i') (js_lit 0.5))"
    using assms(3,6) by (simp_all add: js_lits round64_mono mult_right_mono)
  then have "js_le (?u a i) (?u a' i')"
    by (rule js_add_mono) (simp_all only: u jsnum.distinct not_False_eq_True)
  moreover have t: "js_le (js_mul (engagement fd) (js_lit 2)) (js_mul (engagement fd') (js_lit 2))"
    using assms(7) by (simp add: js_lits js_mul_pos_mono)
  moreover have n: "js_mul (engagement fd) (js_lit 2) \<noteq> NaN"
    "js_mul (engagement fd') (js_lit 2) \<noteq> NaN"
    using js_le_not_NaN [OF t] by simp_all
  have "js_add (?u a i) (js_mul (engagement fd) (js_lit 2)) \<noteq> NaN"
    unfolding u by (rule js_add_not_NaN(2) [OF n(1)])
  moreover have "js_add (?u a' i') (js_mul (engagement fd') (js_lit 2)) \<noteq> NaN"
    unfolding u by (rule js_add_not_NaN(2) [OF n(2)])
  ultimately show ?thesis
    unfolding score_def assms(1,2,4,5) by (rule js_add_mono)
qed

lemma engagement_mono:
  assumes "parseFloat (orElse (culturalActivityScore fd) ''0'') = Num c"
    and "parseFloat (orElse (culturalActivityScore fd') ''0'') = Num c'" and "c \<le> c'"
    and "parseFloat (orElse (classParticipationScore fd) ''0'') = Num p"
    and "parseFloat (orElse (classParticipationScore fd') ''0'') = Num p'" and "p \<le> p'"
    and "parseFloat (orElse (sportsActivityScore fd) ''0'') = Num s"
    and "parseFloat (orElse (sportsActivityScore fd') ''0'') = Num s'" and "s \<le> s'"
    and "parseFloat (orElse (curricularActivityScore fd) ''0'') = Num k"
    and "parseFloat (orElse (curricularActivityScore fd') ''0'') = Num k'" and "k \<le> k'"
  shows "js_le (engagement fd) (engagement fd')"
proof -
  have 1: "js_le (js_add (Num c) (Num p)) (js_add (Num c') (Num p'))"
    using assms(3,6) by (simp add: round64_mono add_mono)
  have 2: "js_le (js_add (js_add (Num c) (Num p)) (Num s)) (js_add (js_add (Num c') (Num p')) (Num s'))"
    using 1 assms(9) by (rule js_add_Num_mono)
  have 3: "js_le (js_add (js_add (js_add (Num c) (Num p)) (Num s)) (Num k))
                 (js_add (js_add (js_add (Num c') (Num p')) (Num s')) (Num k'))"
    using 2 assms(12) by (rule js_add_Num_mono)
  show ?thesis
    unfolding engagement_def assms(1,2,4,5,7,8,10,11) js_lit_4 using 3
    by (rule js_div_pos_mono) simp
qed

lemma probability_of_mono:
  assumes "js_le (score fd) (score fd')"
  shows "js_le (probability_of fd) (probability_of fd')"
  unfolding probability_of_def js_lit_100 js_lit_1_10 js_lit_95_100 using assms
  by (intro Math_min_mono Math_max_mono js_div_pos_mono) simp_all

section \<open>The sample submissions, evaluated\<close>

text \<open>
  The roundings that occur when the sample submissions are scored, each settled by its
  exponent and significand. The sum 18.599999999999998 + 24 of the second template row
  lies exactly halfway between two binary64 values and goes to the even one.
\<close>

lemma round64_0: "round64 0 = Num 0"
  by (simp add: round64_def)

lemma round64_at_1: "round64 62 = Num 62"
  using round64_pos_eval [of "5" "62" "8725724278030336"] by (simp add: pow2_def)

lemma round64_at_2: "round64 48 = Num 48"
  using round64_pos_eval [of "5" "48" "6755399441055744"] by (simp add: pow2_def)

lemma round64_at_3: "round64 3 = Num 3"
  using round64_pos_eval [of "1" "3" "6755399441055744"] by (simp add: pow2_def)

lemma round64_at_4: "round64 6 = Num 6"
  using round64_pos_eval [of "2" "6" "6755399441055744"] by (simp add: pow2_def)

lemma round64_at_5: "round64 7 = Num 7"
  using round64_pos_eval [of "2" "7" "7881299347898368"] by (simp add: pow2_def)

lemma round64_at_6: "round64 13 = Num 13"
  using round64_pos_eval [of "3" "13" "7318349394477056"] by (simp add: pow2_def)

lemma round64_at_7: "round64 15 = Num 15"
  using round64_pos_eval [of "3" "15" "8444249301319680"] by (simp add: pow2_def)

lemma round64_at_8: "round64 (15 / 4) = Num (15 / 4)"
  using round64_pos_eval [of "1" "(15 / 4)" "8444249301319680"] by (simp add: pow2_def)

lemma round64_at_9: "round64 (167533906138182445 / 9007199254740992) = Num (5235434566818201 / 281474976710656)"
  using round64_pos_eval [of "4" "(167533906138182445 / 9007199254740992)" "5235434566818201"] by (simp add: pow2_def)

lemma round64_at_10: "round64 24 = Num 24"
  using round64_pos_eval [of "4" "24" "6755399441055744"] by (simp add: pow2_def)

lemma round64_at_11: "round64 (11990834007873945 / 281474976710656) = Num (1498854250984243 / 35184372088832)"
  using round64_pos_tie [of "5" "(11990834007873945 / 281474976710656)" "5995417003936972"] by (simp add: pow2_def)

lemma round64_at_12: "round64 (15 / 2) = Num (15 / 2)"
  using round64_pos_eval [of "2" "(15 / 2)" "8444249301319680"] by (simp add: pow2_def)

lemma round64_at_13: "round64 (1762737041650483 / 35184372088832) = Num (1762737041650483 / 35184372088832)"
  using round64_pos_eval [of "5" "(1762737041650483 / 35184372088832)" "7050948166601932"] by (simp add: pow2_def)

lemma round64_at_14: "round64 (1762737041650483 / 3518437208883200) = Num (1128151706656309 / 2251799813685248)"
  using round64_pos_eval [of "-1" "(1762737041650483 / 3518437208883200)" "4512606826625236"] by (simp add: pow2_def)

lemma round64_at_15: "round64 (75 / 2) = Num (75 / 2)"
  using round64_pos_eval [of "5" "(75 / 2)" "5277655813324800"] by (simp add: pow2_def)

lemma round64_at_16: "round64 80 = Num 80"
  using round64_pos_eval [of "6" "80" "5629499534213120"] by (simp add: pow2_def)

lemma round64_at_17: "round64 (135107988821114875 / 4503599627370496) = Num 30"
  using round64_pos_eval [of "4" "(135107988821114875 / 4503599627370496)" "8444249301319680"] by (simp add: pow2_def)

lemma round64_at_18: "round64 40 = Num 40"
  using round64_pos_eval [of "5" "40" "5629499534213120"] by (simp add: pow2_def)

lemma round64_at_19: "round64 70 = Num 70"
  using round64_pos_eval [of "6" "70" "4925812092436480"] by (simp add: pow2_def)

lemma round64_at_20: "round64 20 = Num 20"
  using round64_pos_eval [of "4" "20" "5629499534213120"] by (simp add: pow2_def)

lemmas parse_defs =
  parseFloat_def parseUnsigned_def parseExponent_def isDigit_def isStrWhiteSpaceChar_def
  digitsValue_def pow10_def orElse_def Let_def

lemma row2_attendance: "attendance row2 = Num 62"
  by (simp add: attendance_def row2_def parse_defs round64_at_1)

lemma row2_internalMarks: "internalMarks row2 = Num 48"
  by (simp add: internalMarks_def row2_def parse_defs round64_at_2)

lemma row2_engagement: "engagement row2 = Num (15 / 4)"
  by (simp add: engagement_def row2_def parse_defs js_lits round64_lit_2 round64_lit_4
      round64_at_3 round64_at_4 round64_at_5 round64_at_6 round64_at_7 round64_at_8)

lemma row2_score: "score row2 = Num (1762737041650483 / 35184372088832)"
  by (simp add: score_def row2_attendance row2_internalMarks row2_engagement js_lits
      round64_at_9 round64_at_10 round64_at_11 round64_at_12 round64_at_13)

lemma row2_probability: "probability_of row2 = Num (1128151706656309 / 2251799813685248)"
  by (simp add: probability_of_def row2_score js_lits round64_at_14 Math_max_def Math_min_def)

lemma round64_lit_50_1: "round64 (501 / 10) = Num (7050948166601933 / 140737488355328)"
  using round64_pos_eval [of "5" "(501 / 10)" "7050948166601933"] by (simp add: pow2_def)

lemma round64_lit_0_501: "round64 (501 / 1000) = Num (4512606826625237 / 9007199254740992)"
  using round64_pos_eval [of "-1" "(501 / 1000)" "4512606826625237"] by (simp add: pow2_def)

lemma row2_prediction: "prediction_of row2 = Pass"
  by (simp add: prediction_of_def row2_probability js_lits)

lemma row2_riskLevel: "riskLevel_of row2 = medium"
  by (simp add: riskLevel_of_def row2_probability js_lits)

lemma marks80_attendance: "attendance marks80 = Num 100"
  by (simp add: attendance_def marks80_def parse_defs round64_lit_100)

lemma marks80_internalMarks: "internalMarks marks80 = Num 80"
  by (simp add: internalMarks_def marks80_def parse_defs round64_at_16)

lemma marks80_engagement: "engagement marks80 = Num 0"
  by (simp add: engagement_def marks80_def parse_defs js_lits round64_0)

lemma marks80_score: "score marks80 = Num 70"
  by (simp add: score_def marks80_attendance marks80_internalMarks marks80_engagement js_lits
      round64_0 round64_at_17 round64_at_18 round64_at_19)

lemma marks80_probability: "probability_of marks80 = js_lit 0.7"
  by (simp add: probability_of_def marks80_score js_lits round64_lit_7_10 Math_max_def Math_min_def)

lemma marks20_attendance: "attendance marks20 = Num 100"
  by (simp add: attendance_def marks20_def parse_defs round64_lit_100)

lemma marks20_internalMarks: "internalMarks marks20 = Num 20"
  by (simp add: internalMarks_def marks20_def parse_defs round64_at_20)

lemma marks20_engagement: "engagement marks20 = Num 0"
  by (simp add: engagement_def marks20_def parse_defs js_lits round64_0)

lemma marks20_score: "score marks20 = Num 40"
  by (simp add: score_def marks20_attendance marks20_internalMarks marks20_engagement js_lits
      round64_0 round64_at_17 round64_lit_10 round64_at_18)

lemma marks20_probability: "probability_of marks20 = js_lit 0.4"
  by (simp add: probability_of_def marks20_score js_lits round64_lit_4_10 Math_max_def Math_min_def)

lemma parseFloat_0: "parseFloat ''0'' = Num 0"
  by (simp add: parse_defs round64_0)

lemma js_mul_commute: "js_mul x y = js_mul y x"
  by (cases x; cases y) (auto simp add: mult.commute)

section \<open>The heuristic score\<close>

text \<open>
  C1. For every submission, the score the timer callback computes is
  0.30 * attendance + 0.50 * internalMarks + 2.0 * engagement, where attendance and
  internalMarks are the parsed fields and engagement is the unweighted mean of the four
  activity scores, an absent (empty) score counting as 0. All operations are those of the
  language, each rounded to binary64; the multiplications are written with the weight
  first, as the specification has them.
\<close>

theorem score_formula:
  "score fd =
     spec_score (parseFloat (attendancePct fd)) (parseFloat (internalMarksAvg fd))
       (mean4 (absentAsZero (culturalActivityScore fd))
              (absentAsZero (classParticipationScore fd))
              (absentAsZero (sportsActivityScore fd))
              (absentAsZero (curricularActivityScore fd)))"
proof -
  have z: "parseFloat (orElse s ''0'') = absentAsZero s" for s
    by (simp add: orElse_def absentAsZero_def parseFloat_0)
  have e: "engagement fd =
     mean4 (absentAsZero (culturalActivityScore fd))
           (absentAsZero (classParticipationScore fd))
           (absentAsZero (sportsActivityScore fd))
           (absentAsZero (curricularActivityScore fd))"
    by (simp add: engagement_def mean4_def z js_lit_4)
  have w: "js_lit 0.30 = js_lit 0.3" "js_lit 0.50 = js_lit 0.5" "js_lit 2.0 = js_lit 2"
    by simp_all
  show ?thesis
    unfolding score_def spec_score_def attendance_def internalMarks_def e w
    by (simp only: js_mul_commute)
qed

section \<open>The probability\<close>

lemma probability_of_clamp:
  "probability_of fd = clamp (js_div (score fd) (js_lit 100)) (js_lit 0.10) (js_lit 0.95)"
proof -
  have w: "js_lit 0.10 = js_lit 0.1" by simp
  show ?thesis
    unfolding probability_of_def w js_lit_1_10 js_lit_95_100
    by (cases "js_div (score fd) (js_lit 100)") (simp_all add: clamp_def Math_max_def Math_min_def)
qed

lemma probability_of_range:
  "probability_of fd = NaN
   \<or> (js_le (js_lit 0.1) (probability_of fd) \<and> js_le (probability_of fd) (js_lit 0.95))"
  unfolding probability_of_def js_lit_1_10 js_lit_95_100
  by (cases "js_div (score fd) (js_lit 100)") (simp_all add: Math_max_def Math_min_def)

lemma js_le_between:
  assumes "js_le (Num l) x" and "js_le x (Num h)"
  shows "\<exists>p. x = Num p \<and> l \<le> p \<and> p \<le> h"
  using assms by (cases x) simp_all

lemma probability_of_interval:
  assumes "probability_of fd \<noteq> NaN"
  shows "\<exists>p. probability_of fd = Num p \<and> 1 / 10 \<le> p \<and> p \<le> 95 / 100"
proof -
  from probability_of_range [of fd] assms
  have "js_le (js_lit 0.1) (probability_of fd)" and "js_le (probability_of fd) (js_lit 0.95)"
    by blast+
  then have "js_le (Num (3602879701896397 / 36028797018963968)) (probability_of fd)"
    and "js_le (probability_of fd) (Num (4278419646001971 / 4503599627370496))"
    unfolding js_lit_1_10 js_lit_95_100 .
  then obtain p where p: "probability_of fd = Num p"
    "3602879701896397 / 36028797018963968 \<le> p" "p \<le> 4278419646001971 / 4503599627370496"
    using js_le_between by blast
  have "(1 / 10 :: rat) \<le> 3602879701896397 / 36028797018963968"
    and "(4278419646001971 / 4503599627370496 :: rat) \<le> 95 / 100"
    by simp_all
  with p(2,3) have "1 / 10 \<le> p" and "p \<le> 95 / 100"
    by (blast intro: order_trans)+
  with p(1) show ?thesis by blast
qed

lemma score_not_NaN:
  assumes "attendance fd = Num a" and "internalMarks fd = Num i" and "engagement fd \<noteq> NaN"
  shows "score fd \<noteq> NaN"
proof -
  have "\<bar>a\<bar> < 2 ^ 1024" "\<bar>i\<bar> < 2 ^ 1024"
    using assms(1,2) by (auto simp add: attendance_def internalMarks_def dest: parseFloat_bound)
  then obtain r where
    r: "js_add (js_mul (Num a) (js_lit 0.3)) (js_mul (Num i) (js_lit 0.5)) = Num r"
    using weighted_sum_finite by blast
  have "js_mul (engagement fd) (js_lit 2) \<noteq> NaN"
    using assms(3) by (cases "engagement fd") (simp_all add: js_lit_2)
  then show ?thesis
    unfolding score_def assms(1,2) r by (rule js_add_not_NaN(2))
qed

lemma probability_not_NaN:
  assumes "score fd \<noteq> NaN"
  shows "probability_of fd \<noteq> NaN"
  using assms unfolding probability_of_def js_lit_100 js_lit_1_10 js_lit_95_100
  by (cases "score fd") (simp_all add: Math_max_def Math_min_def)

text \<open>
  C2. The probability of every submission is clamp(score/100, 0.10, 0.95). When
  attendance and internal marks lie in [0,100] and engagement in [0,10], it is a number
  in the closed interval [0.10, 0.95]. No submission at all yields a probability below
  0.10 or above 0.95, neither by the comparison of the language nor as an exact value.
\<close>

theorem probability_clamped:
  "probability (handleSubmit_result fd) =
     clamp (js_div (score fd) (js_lit 100)) (js_lit 0.10) (js_lit 0.95)
   \<and> (attendance fd = Num a \<and> 0 \<le> a \<and> a \<le> 100
        \<and> internalMarks fd = Num i \<and> 0 \<le> i \<and> i \<le> 100
        \<and> engagement fd = Num e \<and> 0 \<le> e \<and> e \<le> 10
      \<longrightarrow> (\<exists>p. probability (handleSubmit_result fd) = Num p \<and> 1 / 10 \<le> p \<and> p \<le> 95 / 100))
   \<and> \<not> js_gt (js_lit 0.10) (probability (handleSubmit_result fd))
   \<and> \<not> js_gt (probability (handleSubmit_result fd)) (js_lit 0.95)
   \<and> (\<forall>p. probability (handleSubmit_result fd) = Num p \<longrightarrow> 1 / 10 \<le> p \<and> p \<le> 95 / 100)"
proof -
  have p: "probability (handleSubmit_result fd) = probability_of fd"
    by (simp add: handleSubmit_result_def)
  have w: "js_lit 0.10 = js_lit 0.1" by simp
  have 1: "\<exists>p. probability_of fd = Num p \<and> 1 / 10 \<le> p \<and> p \<le> 95 / 100"
    if "attendance fd = Num a" "internalMarks fd = Num i" "engagement fd = Num e"
    using that
    by (intro probability_of_interval probability_not_NaN score_not_NaN [of fd a i]) simp_all
  have 2: "\<not> js_gt (js_lit 0.10) (probability_of fd)" "\<not> js_gt (probability_of fd) (js_lit 0.95)"
    using probability_of_range [of fd] unfolding w js_lit_1_10 js_lit_95_100
    by (cases "probability_of fd"; simp)+
  have 3: "1 / 10 \<le> q \<and> q \<le> 95 / 100" if "probability_of fd = Num q" for q
    using probability_of_interval [of fd] that by auto
  show ?thesis
    unfolding p using probability_of_clamp [of fd] 1 2 3 by blast
qed

theorem probability_clamped_witness:
  "attendance row2 = Num 62 \<and> internalMarks row2 = Num 48 \<and> engagement row2 = Num (15 / 4)
   \<and> (\<exists>p. probability (handleSubmit_result row2) = Num p \<and> 1 / 10 \<le> p \<and> p \<le> 95 / 100)"
proof -
  have h: "attendance row2 = Num 62 \<and> 0 \<le> (62 :: rat) \<and> (62 :: rat) \<le> 100
      \<and> internalMarks row2 = Num 48 \<and> 0 \<le> (48 :: rat) \<and> (48 :: rat) \<le> 100
      \<and> engagement row2 = Num (15 / 4) \<and> 0 \<le> (15 / 4 :: rat) \<and> (15 / 4 :: rat) \<le> 10"
    by (simp add: row2_attendance row2_internalMarks row2_engagement)
  from probability_clamped [of row2 62 48 "15 / 4"] h
  have "\<exists>p. probability (handleSubmit_result row2) = Num p \<and> 1 / 10 \<le> p \<and> p \<le> 95 / 100"
    by blast
  with h show ?thesis by blast
qed

section \<open>Prediction and risk level\<close>

text \<open>
  C3. In the result of every submission the prediction is Pass exactly when the
  probability is greater than 0.5; the risk level is low exactly when the probability is
  greater than 0.7, medium exactly when it is greater than 0.4 and at most 0.7, and high
  in every other case. A probability of exactly 0.7 gives medium and one of exactly 0.4
  gives high. Comparisons and the literals 0.5, 0.7 and 0.4 are those of the language.
\<close>

theorem classification_thresholds:
  "(prediction (handleSubmit_result fd) = Pass
      \<longleftrightarrow> js_gt (probability (handleSubmit_result fd)) (js_lit 0.5))
   \<and> (riskLevel (handleSubmit_result fd) = low
      \<longleftrightarrow> js_gt (probability (handleSubmit_result fd)) (js_lit 0.7))
   \<and> (riskLevel (handleSubmit_result fd) = medium
      \<longleftrightarrow> js_gt (probability (handleSubmit_result fd)) (js_lit 0.4)
          \<and> js_le (probability (handleSubmit_result fd)) (js_lit 0.7))
   \<and> (riskLevel (handleSubmit_result fd) = high
      \<longleftrightarrow> \<not> js_gt (probability (handleSubmit_result fd)) (js_lit 0.7)
          \<and> \<not> (js_gt (probability (handleSubmit_result fd)) (js_lit 0.4)
               \<and> js_le (probability (handleSubmit_result fd)) (js_lit 0.7)))
   \<and> (probability (handleSubmit_result fd) = js_lit 0.7
      \<longrightarrow> riskLevel (handleSubmit_result fd) = medium)
   \<and> (probability (handleSubmit_result fd) = js_lit 0.4
      \<longrightarrow> riskLevel (handleSubmit_result fd) = high)"
  by (cases "probability_of fd")
     (simp_all add: handleSubmit_result_def prediction_of_def riskLevel_of_def js_lits)

theorem classification_thresholds_witness:
  "probability (handleSubmit_result marks80) = js_lit 0.7
   \<and> riskLevel (handleSubmit_result marks80) = medium
   \<and> probability (handleSubmit_result marks20) = js_lit 0.4
   \<and> riskLevel (handleSubmit_result marks20) = high"
  using classification_thresholds [of marks80] classification_thresholds [of marks20]
  by (simp add: handleSubmit_result_def marks80_probability marks20_probability)

section \<open>The second template row\<close>

text \<open>
  C4, as the specification states it, fails: for attendance 62.0, internal marks 48 and
  activity scores 3, 4, 6, 2 the score is not 50.1 and the probability is not 0.501,
  neither as exact values nor as the binary64 values the literals 50.1 and 0.501 denote.
\<close>

theorem row2_claimed_values_counterexample:
  "score row2 \<noteq> Num (501 / 10) \<and> score row2 \<noteq> js_lit 50.1
   \<and> probability (handleSubmit_result row2) \<noteq> Num (501 / 1000)
   \<and> probability (handleSubmit_result row2) \<noteq> js_lit 0.501"
  by (simp add: handleSubmit_result_def row2_score row2_probability js_lit_def
      round64_lit_50_1 round64_lit_0_501)

text \<open>
  C4, amended. For that input the engagement is 3.75; the score is the binary64 value
  50.099999999999994 (the product 62.0 * 0.3 is 18.599999999999998), within
  \<open>10\<^sup>-\<^sup>1\<^sup>4\<close> of 50.1; the probability is the binary64 value 0.5009999999999999, within
  \<open>10\<^sup>-\<^sup>1\<^sup>5\<close> of 0.501; the prediction is Pass and the risk level is medium.
\<close>

theorem row2_values:
  "engagement row2 = Num (15 / 4)
   \<and> js_mul (attendance row2) (js_lit 0.3) = Num (5235434566818201 / 281474976710656)
   \<and> score row2 = Num (1762737041650483 / 35184372088832)
   \<and> \<bar>1762737041650483 / 35184372088832 - 501 / 10\<bar> < (1 / 10 ^ 14 :: rat)
   \<and> probability (handleSubmit_result row2) = Num (1128151706656309 / 2251799813685248)
   \<and> \<bar>1128151706656309 / 2251799813685248 - 501 / 1000\<bar> < (1 / 10 ^ 15 :: rat)
   \<and> prediction (handleSubmit_result row2) = Pass
   \<and> riskLevel (handleSubmit_result row2) = medium"
  by (simp add: handleSubmit_result_def row2_engagement row2_attendance row2_score
      row2_probability row2_prediction row2_riskLevel js_lits round64_at_9)

section \<open>The factor breakdown\<close>

text \<open>
  C5. Every submission stores a result whose topFactors are exactly three pairs, in the
  fixed order Internal Marks (impact: the internal marks), Attendance (impact: the
  attendance), Engagement Index (impact: engagement * 10), whatever the magnitudes of the
  inputs.
\<close>

theorem topFactors_fixed:
  "map_option topFactors (result (handleSubmit_timeout (formData s) (handleSubmit s))) =
     Some [ \<lparr> feature = ''Internal Marks'', impact = internalMarks (formData s) \<rparr>,
            \<lparr> feature = ''Attendance'', impact = attendance (formData s) \<rparr>,
            \<lparr> feature = ''Engagement Index'',
              impact = js_mul (engagement (formData s)) (js_lit 10) \<rparr> ]
   \<and> topFactors (handleSubmit_result fd) =
     [ \<lparr> feature = ''Internal Marks'', impact = internalMarks fd \<rparr>,
       \<lparr> feature = ''Attendance'', impact = attendance fd \<rparr>,
       \<lparr> feature = ''Engagement Index'', impact = js_mul (engagement fd) (js_lit 10) \<rparr> ]
   \<and> length (topFactors (handleSubmit_result fd)) = 3"
  by (simp add: handleSubmit_timeout_def handleSubmit_result_def)

section \<open>Bulk upload: the guards\<close>

lemma handleUpload_no_file:
  "file s = None \<Longrightarrow>
   handleUpload s = s\<lparr> toasts := toasts s @ [ToastError ''Please select a file first''] \<rparr>"
  by (simp add: handleUpload_def)

text \<open>
  C6. In every state without a selected file, Upload and Predict reports the error
  "Please select a file first" and does nothing else: the state is the old one with that
  one notification added, so no timer is started, an uploading flag that was false is
  still false, and the file selection is still absent.
\<close>

theorem handleUpload_without_file:
  "file s = None \<Longrightarrow>
   handleUpload s = s\<lparr> toasts := toasts s @ [ToastError ''Please select a file first''] \<rparr>
   \<and> uploading (handleUpload s) = uploading s
   \<and> file (handleUpload s) = None
   \<and> uploadTimers (handleUpload s) = uploadTimers s
   \<and> downloads (handleUpload s) = downloads s"
  by (simp add: handleUpload_no_file)

theorem handleUpload_without_file_witness:
  "file BulkUpload_init = None
   \<and> toasts (handleUpload BulkUpload_init) = [ToastError ''Please select a file first'']
   \<and> \<not> uploading (handleUpload BulkUpload_init)
   \<and> file (handleUpload BulkUpload_init) = None
   \<and> uploadTimers (handleUpload BulkUpload_init) = []"
proof -
  have h: "file BulkUpload_init = None"
    by (simp add: BulkUpload_init_def)
  show ?thesis
    using h handleUpload_without_file [OF h]
    by (simp add: BulkUpload_init_def)
qed

section \<open>Bulk upload: the template\<close>

text \<open>
  C7. In every state, Download Template offers one and the same download: a blob whose only
  part is the header row and the three example rows of the external interface, one per
  line, of media type text/csv, under the name student_data_template.csv. Nothing of the
  state enters it, and the file selection and the uploading flag are left alone.
\<close>

theorem downloadTemplate_fixed:
  "downloads (downloadTemplate s) =
     downloads s @
       [\<lparr> blobParts = [joinLines spec_csv_rows], blobType = ''text/csv'',
          download = ''student_data_template.csv'' \<rparr>]
   \<and> file (downloadTemplate s) = file s
   \<and> uploading (downloadTemplate s) = uploading s"
  by (simp add: downloadTemplate_def csvContent_def spec_csv_rows_def)

section \<open>Analytics: the fixed figures\<close>

text \<open>
  C8. The pie chart draws the three segments Low Risk, Medium Risk and High Risk; their
  values sum to 183, the figure on the card Total Students Analyzed, and the value of the
  High Risk segment, 18, is the figure on the card High Risk Students.
\<close>

theorem analytics_totals:
  "map segName riskDistribution = [''Low Risk'', ''Medium Risk'', ''High Risk'']
   \<and> sum_list (pieValues riskDistribution) = 183
   \<and> cardFigure ''Total Students Analyzed'' = Some (showDigits (sum_list (pieValues riskDistribution)))
   \<and> pieValues riskDistribution ! 2 = 18
   \<and> cardFigure ''High Risk Students'' = Some (showDigits (pieValues riskDistribution ! 2))"
  by code_simp

section \<open>Monotonicity\<close>

text \<open>
  C9. Take two submissions in which every field parses to a finite number (an empty
  activity score counting as 0). If each value of the second is greater than or equal to
  the corresponding value of the first, then the probability of the second is greater
  than or equal to that of the first. Two submissions that agree on all fields but one,
  the second being greater or equal there, are the special case.
\<close>

theorem probability_monotone:
  assumes "attendance fd = Num a" and "attendance fd' = Num a'" and "a \<le> a'"
    and "internalMarks fd = Num i" and "internalMarks fd' = Num i'" and "i \<le> i'"
    and "parseFloat (orElse (culturalActivityScore fd) ''0'') = Num c"
    and "parseFloat (orElse (culturalActivityScore fd') ''0'') = Num c'" and "c \<le> c'"
    and "parseFloat (orElse (classParticipationScore fd) ''0'') = Num p"
    and "parseFloat (orElse (classParticipationScore fd') ''0'') = Num p'" and "p \<le> p'"
    and "parseFloat (orElse (sportsActivityScore fd) ''0'') = Num s"
    and "parseFloat (orElse (sportsActivityScore fd') ''0'') = Num s'" and "s \<le> s'"
    and "parseFloat (orElse (curricularActivityScore fd) ''0'') = Num k"
    and "parseFloat (orElse (curricularActivityScore fd') ''0'') = Num k'" and "k \<le> k'"
  shows "js_le (probability (handleSubmit_result fd)) (probability (handleSubmit_result fd'))"
proof -
  have "js_le (engagement fd) (engagement fd')"
    using assms(7-18) by (rule engagement_mono)
  with assms(1-6) have "js_le (score fd) (score fd')"
    by (rule score_mono)
  then have "js_le (probability_of fd) (probability_of fd')"
    by (rule probability_of_mono)
  then show ?thesis by (simp add: handleSubmit_result_def)
qed

theorem probability_monotone_witness:
  "attendance marks20 = Num 100 \<and> attendance marks80 = Num 100
   \<and> internalMarks marks20 = Num 20 \<and> internalMarks marks80 = Num 80
   \<and> parseFloat (orElse (culturalActivityScore marks20) ''0'') = Num 0
   \<and> parseFloat (orElse (culturalActivityScore marks80) ''0'') = Num 0
   \<and> js_le (probability (handleSubmit_result marks20)) (probability (handleSubmit_result marks80))"
proof -
  have z: "parseFloat (orElse [] ''0'') = Num 0"
    by (simp add: orElse_def parseFloat_0)
  have f: "culturalActivityScore marks20 = []" "classParticipationScore marks20 = []"
    "sportsActivityScore marks20 = []" "curricularActivityScore marks20 = []"
    "culturalActivityScore marks80 = []" "classParticipationScore marks80 = []"
    "sportsActivityScore marks80 = []" "curricularActivityScore marks80 = []"
    by (simp_all add: marks20_def marks80_def)
  have "js_le (probability (handleSubmit_result marks20)) (probability (handleSubmit_result marks80))"
    by (rule probability_monotone [of marks20 100 marks80 100 20 80 0 0 0 0 0 0 0 0])
       (simp_all add: marks20_attendance marks80_attendance marks20_internalMarks
          marks80_internalMarks f z)
  then show ?thesis
    by (simp add: marks20_attendance marks80_attendance marks20_internalMarks
        marks80_internalMarks f z)
qed

section \<open>Bulk upload: file selection\<close>

text \<open>
  C10. A file-change event that delivers no file (the file list is absent or empty) leaves
  the whole state as it was: the stored selection, the uploading flag, and the list of
  notifications. The stored selection changes only when the event carries a first file, and
  then it is that file.
\<close>

theorem handleFileChange_no_file:
  "(files = None \<or> files = Some [] \<longrightarrow> handleFileChange files s = s)
   \<and> (file (handleFileChange files s) \<noteq> file s \<longrightarrow>
          (\<exists>f fs. files = Some (f # fs) \<and> file (handleFileChange files s) = Some f))"
  by (auto simp add: handleFileChange_def split: option.splits list.splits)

theorem handleFileChange_no_file_witness:
  "handleFileChange (Some []) (BulkUpload_init\<lparr> file := Some \<lparr> name = ''a.csv'' \<rparr> \<rparr>)
     = BulkUpload_init\<lparr> file := Some \<lparr> name = ''a.csv'' \<rparr> \<rparr>
   \<and> file (handleFileChange (Some [\<lparr> name = ''b.csv'' \<rparr>])
              (BulkUpload_init\<lparr> file := Some \<lparr> name = ''a.csv'' \<rparr> \<rparr>))
       \<noteq> file (BulkUpload_init\<lparr> file := Some \<lparr> name = ''a.csv'' \<rparr> \<rparr>)
   \<and> file (handleFileChange (Some [\<lparr> name = ''b.csv'' \<rparr>])
              (BulkUpload_init\<lparr> file := Some \<lparr> name = ''a.csv'' \<rparr> \<rparr>))
       = Some \<lparr> name = ''b.csv'' \<rparr>"
  using handleFileChange_no_file
          [of "Some []" "BulkUpload_init\<lparr> file := Some \<lparr> name = ''a.csv'' \<rparr> \<rparr>"]
        handleFileChange_no_file
          [of "Some [\<lparr> name = ''b.csv'' \<rparr>]"
              "BulkUpload_init\<lparr> file := Some \<lparr> name = ''a.csv'' \<rparr> \<rparr>"]
  by (simp add: handleFileChange_def BulkUpload_init_def)

end
